theory Spec2Isabelle
  imports Main "HOL-Library.Word" "HOL-Library.Sublist"
begin

section \<open>Content ids, errors and results\<close>

text \<open>
  A content id of go-cid is a struct around one string; the zero value \<open>cid.Undef\<close> is
  the empty one. The text form \<open>c.String()\<close> is injective on defined ids, so the model
  identifies an id with its text form.
\<close>

type_synonym bytes = "8 word list"

datatype cid = Cid (str: string)

definition Undef :: cid where
  "Undef = Cid []"

definition Defined :: "cid \<Rightarrow> bool" where
  "Defined c = (c \<noteq> Undef)"

definition cid_String :: "cid \<Rightarrow> string" where
  "cid_String c = str c"

text \<open>
  Every error value the engine creates or passes on. \<open>Errorf msg e\<close> is
  \<open>fmt.Errorf(msg, e)\<close>, an error wrapping another one.
\<close>

datatype error =
    ErrNotFound
  | IOError
  | ErrCidTooShort
  | ErrInvalidCid
  | ErrToNode
  | ErrLinkStore
  | ErrSign
  | ErrMetaCidNil
  | ErrNilToUpdate
  | ErrNoPushedMetadata
  | ErrTransport
  | ErrNewPublisher
  | ErrUnknownPublisherKind string
  | ErrNewSync
  | ErrWrongNodesNumber
  | ErrDismatchedCid
  | ErrLoad
  | ErrUnwrap
  | ErrEncode
  | ErrHttpTransport
  | ErrHttpIsError nat
  | ErrHttpStatus nat
  | Errorf string error

text \<open>
  What a call does: it returns a value, returns an error, or panics (a nil dereference
  of the Go runtime, which ends the process).
\<close>

datatype 'a result = Ok 'a | Err error | Panic

section \<open>Advertisements and the link system\<close>

datatype ipld_node = BytesNode bytes | StructNode "bytes option"

record metadata =
  PreviousID :: "cid option"
  Provider :: string
  Payload :: ipld_node
  Signature :: bytes

text \<open>
  A block of the local link system: an advertisement, a block of another schema, or a
  block that cannot be read back.
\<close>

datatype stored = MetaBlock metadata | ForeignBlock | CorruptBlock

datatype recursion_limit = RecursionLimitNone | RecursionLimitDepth int

datatype selector = LegSelector recursion_limit "cid option"

section \<open>The persistent store\<close>

datatype dskey = LatestMetaKey | PushedCidListKey | CheckCidListKey

text \<open>
  The three records the engine keeps in its datastore, each absent (\<open>None\<close>) until
  first written. The values are kept decoded: the engine's encodings (raw cid bytes,
  JSON) are read back as they were written.
\<close>

record datastore =
  dsLatestMeta :: "cid option"
  dsPushedCidList :: "cid list option"
  dsCheckCidList :: "string set option"

section \<open>The remote index\<close>

record MetaInclusion =
  InPando :: bool

text \<open>
  The body of an inclusion response after \<open>json.Unmarshal\<close>: not JSON of the expected
  shape, or an \<open>inclusionResJson\<close> whose \<open>Data\<close> pointer is nil when the field is
  absent or null.
\<close>

datatype http_body = Malformed | Json "MetaInclusion option"

datatype http_result = TransportFailure | Response nat http_body

section \<open>The collaborators of one call\<close>

text \<open>
  Everything outside the engine that decides how a call goes: which texts the cid
  library parses, which datastore and transport calls fail, what the link system
  returns, what the remote peer serves, what the remote index answers, in which order
  Go ranges over the snapshot of the pending set, and whether the shutdown signal has
  fired by the time an id is reached.
\<close>

record world =
  wellFormed :: "string \<Rightarrow> bool"
  getFails :: "dskey \<Rightarrow> bool"
  putFails :: "dskey \<Rightarrow> bool"
  toNodeFails :: "metadata \<Rightarrow> bool"
  lsysStore :: "metadata \<Rightarrow> cid option"
  signMeta :: "ipld_node \<Rightarrow> cid option \<Rightarrow> bytes option"
  newPublisherFails :: bool
  setRootFails :: "cid \<Rightarrow> bool"
  updateRootFails :: "cid \<Rightarrow> bool"
  newSyncFails :: bool
  traverse :: "cid \<Rightarrow> selector \<Rightarrow> (cid \<times> stored) list \<times> bool"
  httpGet :: "string \<Rightarrow> http_result"
  rangeOrder :: "string list"
  shutdownBefore :: "string \<Rightarrow> bool"
  closeFails :: bool

section \<open>The engine\<close>

datatype pubkind = NoPublisher | DataTransferPublisher | HttpPublisher | OtherKind string

datatype publisher = Publisher (pubRoot: cid)

record engine =
  pubKind :: pubkind
  hostID :: string
  ds :: datastore
  lsys :: "cid \<rightharpoonup> stored"
  publisher :: "publisher option"
  latestMeta :: cid
  pushList :: "cid list"
  checkList :: "string set"
  closing :: bool

subsection \<open>The cid library and the transport\<close>

definition cid_Decode :: "world \<Rightarrow> string \<Rightarrow> error + cid" where
  "cid_Decode w v =
     (if length v < 2 then Inl ErrCidTooShort
      else if wellFormed w v then Inr (Cid v)
      else Inl ErrInvalidCid)"

definition SetRoot :: "world \<Rightarrow> publisher \<Rightarrow> cid \<Rightarrow> error + publisher" where
  "SetRoot w p c = (if setRootFails w c then Inl ErrTransport else Inr (Publisher c))"

definition UpdateRoot :: "world \<Rightarrow> publisher \<Rightarrow> cid \<Rightarrow> error + publisher" where
  "UpdateRoot w p c = (if updateRootFails w c then Inl ErrTransport else Inr (Publisher c))"

subsection \<open>Reading the persisted records\<close>

text \<open>
  A record that is not found reads as its empty value. The pending set is a Go map used
  as a set; the engine makes it with \<open>make\<close> or reads back a JSON object it wrote, so it is
  never the nil map.
\<close>

definition getLatestMetaCid :: "world \<Rightarrow> engine \<Rightarrow> error + cid" where
  "getLatestMetaCid w e =
     (if getFails w LatestMetaKey then Inl IOError
      else case dsLatestMeta (ds e) of
             None \<Rightarrow> Inr Undef
           | Some c \<Rightarrow> Inr c)"

definition GetPushedList :: "world \<Rightarrow> engine \<Rightarrow> error + cid list" where
  "GetPushedList w e =
     (if getFails w PushedCidListKey then Inl IOError
      else case dsPushedCidList (ds e) of
             None \<Rightarrow> Inr []
           | Some l \<Rightarrow> Inr l)"

definition GetCheckList :: "world \<Rightarrow> engine \<Rightarrow> error + string set" where
  "GetCheckList w e =
     (if getFails w CheckCidListKey then Inl IOError
      else case dsCheckCidList (ds e) of
             None \<Rightarrow> Inr {}
           | Some m \<Rightarrow> Inr m)"

definition initInfo :: "world \<Rightarrow> engine \<Rightarrow> error option \<times> engine" where
  "initInfo w e =
     (case getLatestMetaCid w e of
        Inl err \<Rightarrow> (Some err, e)
      | Inr metaCid \<Rightarrow>
          let e1 = e\<lparr>latestMeta := metaCid\<rparr> in
          (case GetPushedList w e1 of
             Inl err \<Rightarrow> (Some err, e1)
           | Inr pushedList \<Rightarrow>
               let e2 = e1\<lparr>pushList := pushedList\<rparr> in
               (case GetCheckList w e2 of
                  Inl err \<Rightarrow> (Some err, e2)
                | Inr cl \<Rightarrow> (None, e2\<lparr>checkList := cl\<rparr>))))"

definition New :: "world \<Rightarrow> pubkind \<Rightarrow> string \<Rightarrow> datastore \<Rightarrow> (cid \<rightharpoonup> stored) \<Rightarrow> engine result" where
  "New w k h d l =
     (let e = \<lparr>pubKind = k, hostID = h, ds = d, lsys = l, publisher = None,
                latestMeta = Undef, pushList = [], checkList = {}, closing = False\<rparr>
      in case initInfo w e of
           (Some err, _) \<Rightarrow> Err err
         | (None, e') \<Rightarrow> Ok e')"

subsection \<open>Starting the publisher\<close>

text \<open>
  \<open>newPublisher\<close> returns a nil publisher for the disabled kind. \<open>Start\<close> sets the root
  of the publisher it got to the persisted latest pointer, if there is one, and then
  starts the reconciliation loop (\<open>runCheck\<close> below).
\<close>

definition newPublisher :: "world \<Rightarrow> engine \<Rightarrow> error + publisher option" where
  "newPublisher w e =
     (case pubKind e of
        NoPublisher \<Rightarrow> Inr None
      | DataTransferPublisher \<Rightarrow>
          (if newPublisherFails w then Inl ErrNewPublisher else Inr (Some (Publisher Undef)))
      | HttpPublisher \<Rightarrow>
          (if newPublisherFails w then Inl ErrNewPublisher else Inr (Some (Publisher Undef)))
      | OtherKind k \<Rightarrow> Inl (ErrUnknownPublisherKind k))"

definition Start :: "world \<Rightarrow> engine \<Rightarrow> unit result \<times> engine" where
  "Start w e =
     (case newPublisher w e of
        Inl err \<Rightarrow> (Err err, e)
      | Inr p \<Rightarrow>
          let e1 = e\<lparr>publisher := p\<rparr> in
          (case getLatestMetaCid w e1 of
             Inl err \<Rightarrow> (Err (Errorf ''could not get latest metadata cid: %w'' err), e1)
           | Inr metaCid \<Rightarrow>
               if metaCid \<noteq> Undef then
                 (case publisher e1 of
                    None \<Rightarrow> (Panic, e1)
                  | Some pb \<Rightarrow>
                      (case SetRoot w pb metaCid of
                         Inl err \<Rightarrow> (Err err, e1)
                       | Inr pb' \<Rightarrow> (Ok (), e1\<lparr>publisher := Some pb'\<rparr>)))
               else (Ok (), e1)))"

subsection \<open>Publishing\<close>

text \<open>
  The three writers of the persisted records. Each changes the engine's field first and
  then writes the datastore, so a failed write leaves the field changed and the datastore
  as it was. \<open>json.Marshal\<close> has no failing input on a list of cids or a set of strings.
\<close>

definition updateLatestMeta :: "world \<Rightarrow> engine \<Rightarrow> cid \<Rightarrow> error option \<times> engine" where
  "updateLatestMeta w e c =
     (if c = Undef then (Some ErrMetaCidNil, e)
      else
        let e1 = e\<lparr>latestMeta := c\<rparr> in
        if putFails w LatestMetaKey then (Some IOError, e1)
        else (None, e1\<lparr>ds := (ds e1)\<lparr>dsLatestMeta := Some c\<rparr>\<rparr>))"

definition updatePushedList :: "world \<Rightarrow> engine \<Rightarrow> cid list \<Rightarrow> error option \<times> engine" where
  "updatePushedList w e list =
     (if length list = 0 then (Some ErrNilToUpdate, e)
      else
        let e1 = e\<lparr>pushList := list\<rparr> in
        if putFails w PushedCidListKey then (Some IOError, e1)
        else (None, e1\<lparr>ds := (ds e1)\<lparr>dsPushedCidList := Some list\<rparr>\<rparr>))"

definition persistCheckList :: "world \<Rightarrow> engine \<Rightarrow> error option \<times> engine" where
  "persistCheckList w e =
     (if checkList e = {} then (None, e)
      else if putFails w CheckCidListKey then (Some IOError, e)
      else (None, e\<lparr>ds := (ds e)\<lparr>dsCheckCidList := Some (checkList e)\<rparr>\<rparr>))"

definition PublishLocal :: "world \<Rightarrow> engine \<Rightarrow> metadata \<Rightarrow> cid result \<times> engine" where
  "PublishLocal w e adv =
     (if toNodeFails w adv then (Err ErrToNode, e)
      else
        (case lsysStore w adv of
           None \<Rightarrow> (Err (Errorf ''cannot generate advertisement link: %s'' ErrLinkStore), e)
         | Some c \<Rightarrow>
             let e1 = e\<lparr>lsys := (lsys e)(c \<mapsto> MetaBlock adv)\<rparr> in
             (case updateLatestMeta w e1 c of
                (Some err, e2) \<Rightarrow>
                  (Err (Errorf ''failed to update reference to latest metadata: %w'' err), e2)
              | (None, e2) \<Rightarrow>
                  (case updatePushedList w e2 (pushList e2 @ [c]) of
                     (Some err, e3) \<Rightarrow>
                       (Err (Errorf ''failed to update pushed cid list: %w'' err), e3)
                   | (None, e3) \<Rightarrow> (Ok c, e3)))))"

definition Publish :: "world \<Rightarrow> engine \<Rightarrow> metadata \<Rightarrow> cid result \<times> engine" where
  "Publish w e md =
     (case PublishLocal w e md of
        (Err err, e1) \<Rightarrow> (Err (Errorf ''failed to publish advertisement locally: %w'' err), e1)
      | (Panic, e1) \<Rightarrow> (Panic, e1)
      | (Ok c, e1) \<Rightarrow>
          (case publisher e1 of
             Some p \<Rightarrow>
               (case UpdateRoot w p c of
                  Inl err \<Rightarrow> (Err err, e1)
                | Inr p' \<Rightarrow>
                    let e2 = e1\<lparr>publisher := Some p'\<rparr>;
                        e3 = (if cid_String c \<notin> checkList e2
                              then e2\<lparr>checkList := insert (cid_String c) (checkList e2)\<rparr>
                              else e2)
                    in (case persistCheckList w e3 of
                          (Some err, e4) \<Rightarrow> (Err err, e4)
                        | (None, e4) \<Rightarrow> (Ok c, e4)))
           | None \<Rightarrow> (Ok c, e1)))"

definition PublishLatest :: "world \<Rightarrow> engine \<Rightarrow> cid result \<times> engine" where
  "PublishLatest w e =
     (case getLatestMetaCid w e of
        Inl err \<Rightarrow> (Err err, e)
      | Inr metaCid \<Rightarrow>
          if metaCid = Undef then (Err ErrNoPushedMetadata, e)
          else
            (case publisher e of
               None \<Rightarrow> (Panic, e)
             | Some p \<Rightarrow>
                 (case UpdateRoot w p metaCid of
                    Inl err \<Rightarrow> (Err err, e)
                  | Inr p' \<Rightarrow> (Ok metaCid, e\<lparr>publisher := Some p'\<rparr>))))"

text \<open>
  Modelled from the spec: \<open>NewMetaWithBytesPayload\<close> of the client's schema package is
  not part of the sources at hand. The spec says that publish "wraps payload plus
  current LatestPointer as previous-link into a new Advertisement"; the signature comes
  from the collaborators and may fail.
\<close>

definition NewMetaWithBytesPayload :: "world \<Rightarrow> bytes \<Rightarrow> string \<Rightarrow> cid option \<Rightarrow> error + metadata" where
  "NewMetaWithBytesPayload w payload provider prevLink =
     (case signMeta w (BytesNode payload) prevLink of
        None \<Rightarrow> Inl ErrSign
      | Some sig \<Rightarrow>
          Inr \<lparr>PreviousID = prevLink, Provider = provider,
               Payload = BytesNode payload, Signature = sig\<rparr>)"

definition PublishBytesData :: "world \<Rightarrow> engine \<Rightarrow> bytes \<Rightarrow> cid result \<times> engine" where
  "PublishBytesData w e payload =
     (let prevLink = (if Defined (latestMeta e) then Some (latestMeta e) else None) in
      case NewMetaWithBytesPayload w payload (hostID e) prevLink of
        Inl err \<Rightarrow> (Err err, e)
      | Inr meta \<Rightarrow>
          (case Publish w e meta of
             (Err err, e1) \<Rightarrow> (Err err, e1)
           | (Panic, e1) \<Rightarrow> (Panic, e1)
           | (Ok c, e1) \<Rightarrow> (Ok c, e1)))"

subsection \<open>Syncing from the remote peer\<close>

text \<open>
  The blocks a traversal visits are written to the local link system one by one, and
  the block hook appends each id to the result list.
\<close>

fun storeVisited :: "(cid \<times> stored) list \<Rightarrow> (cid \<rightharpoonup> stored) \<Rightarrow> (cid \<rightharpoonup> stored)" where
  "storeVisited [] m = m"
| "storeVisited ((c, b) # r) m = storeVisited r (m(c \<mapsto> b))"

definition syncSelector :: "int \<Rightarrow> cid \<Rightarrow> selector" where
  "syncSelector depth endCid =
     (if depth \<noteq> 0 \<or> Defined endCid then
        LegSelector (if depth \<noteq> 0 then RecursionLimitDepth depth else RecursionLimitNone)
                    (if Defined endCid then Some endCid else None)
      else LegSelector (RecursionLimitDepth 999999) None)"

definition Sync :: "world \<Rightarrow> engine \<Rightarrow> string \<Rightarrow> int \<Rightarrow> string \<Rightarrow> cid list result \<times> engine" where
  "Sync w e c depth endCidStr =
     (case cid_Decode w c of
        Inl err \<Rightarrow> (Err err, e)
      | Inr syncCid \<Rightarrow>
          (case (if endCidStr \<noteq> [] then cid_Decode w endCidStr else Inr Undef) of
             Inl err \<Rightarrow> (Err err, e)
           | Inr endCid \<Rightarrow>
               if newSyncFails w then (Err ErrNewSync, e)
               else
                 (case traverse w syncCid (syncSelector depth endCid) of
                    (visited, failed) \<Rightarrow>
                      (Ok (map fst visited), e\<lparr>lsys := storeVisited visited (lsys e)\<rparr>))))"

subsection \<open>Reading an advertisement, locally or from the remote peer\<close>

definition lsys_Load :: "engine \<Rightarrow> cid \<Rightarrow> error + stored" where
  "lsys_Load e c =
     (case lsys e c of
        None \<Rightarrow> Inl ErrNotFound
      | Some CorruptBlock \<Rightarrow> Inl ErrLoad
      | Some b \<Rightarrow> Inr b)"

definition UnwrapMetadata :: "stored \<Rightarrow> error + metadata" where
  "UnwrapMetadata n = (case n of MetaBlock m \<Rightarrow> Inr m | _ \<Rightarrow> Inl ErrUnwrap)"

definition catRemote :: "world \<Rightarrow> engine \<Rightarrow> cid \<Rightarrow> stored result \<times> engine" where
  "catRemote w e c =
     (case Sync w e (cid_String c) 1 [] of
        (Err err, e1) \<Rightarrow> (Err err, e1)
      | (Panic, e1) \<Rightarrow> (Panic, e1)
      | (Ok syncCids, e1) \<Rightarrow>
          if length syncCids \<noteq> 1 then (Err ErrWrongNodesNumber, e1)
          else if syncCids ! 0 \<noteq> c then (Err ErrDismatchedCid, e1)
          else
            (case lsys_Load e1 c of
               Inl err \<Rightarrow> (Err err, e1)
             | Inr n \<Rightarrow> (Ok n, e1)))"

definition payloadBytes :: "stored \<Rightarrow> bytes result" where
  "payloadBytes n =
     (case UnwrapMetadata n of
        Inl err \<Rightarrow> Err err
      | Inr meta \<Rightarrow>
          (case Payload meta of
             BytesNode bytesRes \<Rightarrow> Ok bytesRes
           | StructNode enc \<Rightarrow>
               (case enc of None \<Rightarrow> Err ErrEncode | Some buf \<Rightarrow> Ok buf)))"

definition CatCid :: "world \<Rightarrow> engine \<Rightarrow> cid \<Rightarrow> bytes result \<times> engine" where
  "CatCid w e c =
     (case lsys_Load e c of
        Inl err \<Rightarrow>
          if err = ErrNotFound then
            (case catRemote w e c of
               (Err err', e1) \<Rightarrow> (Err err', e1)
             | (Panic, e1) \<Rightarrow> (Panic, e1)
             | (Ok n, e1) \<Rightarrow> (payloadBytes n, e1))
          else (Err err, e)
      | Inr n \<Rightarrow> (payloadBytes n, e))"

subsection \<open>The reconciliation loop\<close>

definition handleResError :: "http_result \<Rightarrow> error + http_body" where
  "handleResError r =
     (case r of
        TransportFailure \<Rightarrow> Inl ErrHttpTransport
      | Response status body \<Rightarrow>
          if 399 < status then Inl (ErrHttpIsError status)
          else if status \<noteq> 200 then Inl (ErrHttpStatus status)
          else Inr body)"

text \<open>
  One pass over the snapshot of the pending set, in the order the range statement
  visits it. The pass returns once the closing channel has fired; \<open>Shutdown\<close> runs in
  another goroutine, and \<open>shutdownBefore w c\<close> says that it has closed the channel by the
  time the pass reaches \<open>c\<close>. A failed query and a body that is not JSON skip the id; a
  nil \<open>Data\<close> is logged and then dereferenced.
\<close>

fun checkSyncStatus :: "world \<Rightarrow> engine \<Rightarrow> string list \<Rightarrow> unit result \<times> engine" where
  "checkSyncStatus w e [] = (Ok (), e)"
| "checkSyncStatus w e (c # cs) =
     (if closing e \<or> shutdownBefore w c then (Ok (), e\<lparr>closing := True\<rparr>)
      else
        (case handleResError (httpGet w c) of
           Inl err \<Rightarrow> checkSyncStatus w e cs
         | Inr body \<Rightarrow>
             (case body of
                Malformed \<Rightarrow> checkSyncStatus w e cs
              | Json inclusion \<Rightarrow>
                  (case inclusion of
                     None \<Rightarrow> (Panic, e)
                   | Some incl \<Rightarrow>
                       if InPando incl
                       then checkSyncStatus w (e\<lparr>checkList := checkList e - {c}\<rparr>) cs
                       else checkSyncStatus w e cs))))"

text \<open>
  The keys of the snapshot in the order the range statement visits them: the order
  comes from the collaborators, and only ids of the snapshot are visited, each once.
\<close>

definition rangeKeys :: "world \<Rightarrow> string set \<Rightarrow> string list" where
  "rangeKeys w checkMap = filter (\<lambda>k. k \<in> checkMap) (remdups (rangeOrder w))"

text \<open>The body of the loop when the ticker fires.\<close>

definition runCheckTick :: "world \<Rightarrow> engine \<Rightarrow> unit result \<times> engine" where
  "runCheckTick w e =
     (if checkList e = {} then (Ok (), e)
      else
        (case checkSyncStatus w e (rangeKeys w (checkList e)) of
           (Panic, e1) \<Rightarrow> (Panic, e1)
         | (_, e1) \<Rightarrow>
             (case persistCheckList w e1 of
                (_, e2) \<Rightarrow> (Ok (), e2))))"

text \<open>
  The loop itself, over the events it selects on: the ticker, or the closing channel.
  It returns when the closing channel fires; while neither fires it blocks, which is
  \<open>None\<close>.
\<close>

datatype event = Tick world | Closed

fun runCheck :: "event list \<Rightarrow> engine \<Rightarrow> unit result option \<times> engine" where
  "runCheck [] e = (if closing e then Some (Ok ()) else None, e)"
| "runCheck (Closed # evs) e = (Some (Ok ()), e\<lparr>closing := True\<rparr>)"
| "runCheck (Tick w # evs) e =
     (case runCheckTick w e of
        (Panic, e1) \<Rightarrow> (Some Panic, e1)
      | (_, e1) \<Rightarrow> runCheck evs e1)"

text \<open>Closing the closing channel a second time panics.\<close>

definition Shutdown :: "world \<Rightarrow> engine \<Rightarrow> unit result \<times> engine" where
  "Shutdown w e =
     (let errs = (case publisher e of
                    Some p \<Rightarrow>
                      if closeFails w
                      then Some (Errorf ''error closing leg publisher: %s'' ErrTransport)
                      else None
                  | None \<Rightarrow> None)
      in if closing e then (Panic, e)
         else (case errs of None \<Rightarrow> Ok () | Some err \<Rightarrow> Err err, e\<lparr>closing := True\<rparr>))"

section \<open>Sequences of operations\<close>

datatype op =
    DoPublish metadata
  | DoPublishBytesData bytes
  | DoPublishLatest
  | DoSync string int string
  | DoCatCid cid
  | DoTick

text \<open>
  One operation of the engine under the collaborators of that call; the flag says
  whether the process panicked.
\<close>

fun step :: "world \<Rightarrow> op \<Rightarrow> engine \<Rightarrow> bool \<times> engine" where
  "step w (DoPublish md) e = (case Publish w e md of (r, e') \<Rightarrow> (r = Panic, e'))"
| "step w (DoPublishBytesData b) e = (case PublishBytesData w e b of (r, e') \<Rightarrow> (r = Panic, e'))"
| "step w DoPublishLatest e = (case PublishLatest w e of (r, e') \<Rightarrow> (r = Panic, e'))"
| "step w (DoSync c depth endCidStr) e =
     (case Sync w e c depth endCidStr of (r, e') \<Rightarrow> (r = Panic, e'))"
| "step w (DoCatCid c) e = (case CatCid w e c of (r, e') \<Rightarrow> (r = Panic, e'))"
| "step w DoTick e = (case runCheckTick w e of (r, e') \<Rightarrow> (r = Panic, e'))"

text \<open>A run stops at the first panic, in the state the process died in.\<close>

fun run :: "(world \<times> op) list \<Rightarrow> engine \<Rightarrow> engine" where
  "run [] e = e"
| "run ((w, a) # r) e = (case step w a e of (True, e') \<Rightarrow> e' | (False, e') \<Rightarrow> run r e')"

text \<open>Every pending id has been pushed.\<close>

definition pendingPushed :: "engine \<Rightarrow> bool" where
  "pendingPushed e = (checkList e \<subseteq> cid_String ` set (pushList e))"

text \<open>What a restart would load as the pending set.\<close>

definition persistedCheckList :: "datastore \<Rightarrow> string set" where
  "persistedCheckList d = (case dsCheckCidList d of None \<Rightarrow> {} | Some m \<Rightarrow> m)"

subsection \<open>Chains of publishes\<close>

text \<open>The previous-link of the advertisement stored under an id, if one is stored.\<close>

definition prevLinkOf :: "engine \<Rightarrow> cid \<Rightarrow> cid option option" where
  "prevLinkOf e c =
     (case lsys e c of
        Some (MetaBlock m) \<Rightarrow> Some (PreviousID m)
      | _ \<Rightarrow> None)"

text \<open>
  What one successful publish did: the latest pointer it found, the id it returned, and
  the previous-link of the advertisement it stored.
\<close>

record published =
  latestBefore :: cid
  newCid :: cid
  prevLink :: "cid option option"

text \<open>A sequence of publishes, all successful; \<open>None\<close> as soon as one fails.\<close>

fun publishSeq :: "(world \<times> bytes) list \<Rightarrow> engine \<Rightarrow> published list option" where
  "publishSeq [] e = Some []"
| "publishSeq ((w, payload) # r) e =
     (case PublishBytesData w e payload of
        (Ok c, e') \<Rightarrow>
          (case publishSeq r e' of
             None \<Rightarrow> None
           | Some ps \<Rightarrow>
               Some (\<lparr>latestBefore = latestMeta e, newCid = c, prevLink = prevLinkOf e' c\<rparr> # ps))
      | _ \<Rightarrow> None)"

fun chainFrom :: "cid \<Rightarrow> published list \<Rightarrow> bool" where
  "chainFrom l [] = True"
| "chainFrom l (p # ps) =
     (latestBefore p = l \<and> prevLink p = Some (if Defined l then Some l else None)
      \<and> Defined (newCid p) \<and> chainFrom (newCid p) ps)"

section \<open>Auxiliary definitions\<close>

text \<open>
  The state after a successful announce of \<open>c\<close>: the publisher's root is \<open>c\<close> and the
  id is in the pending set.
\<close>

definition announced :: "engine \<Rightarrow> cid \<Rightarrow> engine" where
  "announced e1 c =
     (if cid_String c \<notin> checkList e1
      then e1\<lparr>publisher := Some (Publisher c), checkList := insert (cid_String c) (checkList e1)\<rparr>
      else e1\<lparr>publisher := Some (Publisher c)\<rparr>)"

subsection \<open>Concrete collaborators and states\<close>

text \<open>
  A world in which every collaborator succeeds, the link system names an advertisement
  after its previous-link, and the remote index reports every id as included; the other
  worlds differ from it in one collaborator each.
\<close>

definition calmWorld :: world where
  "calmWorld =
     \<lparr>wellFormed = (\<lambda>_. True), getFails = (\<lambda>_. False), putFails = (\<lambda>_. False),
      toNodeFails = (\<lambda>_. False),
      lsysStore = (\<lambda>m. Some (Cid (''ad'' @ (case PreviousID m of None \<Rightarrow> [] | Some p \<Rightarrow> str p)))),
      signMeta = (\<lambda>_ _. Some []), newPublisherFails = False,
      setRootFails = (\<lambda>_. False), updateRootFails = (\<lambda>_. False), newSyncFails = False,
      traverse = (\<lambda>_ _. ([], False)),
      httpGet = (\<lambda>_. Response 200 (Json (Some \<lparr>InPando = True\<rparr>))),
      rangeOrder = [''ad'', ''adad''], shutdownBefore = (\<lambda>_. False), closeFails = False\<rparr>"

definition emptyStore :: datastore where
  "emptyStore = \<lparr>dsLatestMeta = None, dsPushedCidList = None, dsCheckCidList = None\<rparr>"

definition freshEngine :: engine where
  "freshEngine =
     \<lparr>pubKind = DataTransferPublisher, hostID = ''host'', ds = emptyStore, lsys = Map.empty,
      publisher = Some (Publisher Undef), latestMeta = Undef, pushList = [], checkList = {},
      closing = False\<rparr>"

definition localOnly :: engine where
  "localOnly = freshEngine\<lparr>pubKind := NoPublisher, publisher := None\<rparr>"

definition firstAd :: metadata where
  "firstAd = \<lparr>PreviousID = None, Provider = ''host'', Payload = BytesNode [1, 2, 3], Signature = []\<rparr>"

definition twoPending :: engine where
  "twoPending =
     freshEngine\<lparr>latestMeta := Cid ''adad'', pushList := [Cid ''ad'', Cid ''adad''],
       checkList := {''ad'', ''adad''},
       ds := \<lparr>dsLatestMeta = Some (Cid ''adad''),
               dsPushedCidList = Some [Cid ''ad'', Cid ''adad''],
               dsCheckCidList = Some {''ad'', ''adad''}\<rparr>\<rparr>"

definition onePending :: engine where
  "onePending =
     freshEngine\<lparr>latestMeta := Cid ''ad'', pushList := [Cid ''ad''], checkList := {''ad''},
       ds := \<lparr>dsLatestMeta = Some (Cid ''ad''), dsPushedCidList = Some [Cid ''ad''],
               dsCheckCidList = Some {''ad''}\<rparr>\<rparr>"

definition brokenWalk :: world where
  "brokenWalk = calmWorld\<lparr>traverse := (\<lambda>c sel. ([(c, MetaBlock firstAd)], True))\<rparr>"

definition noData :: world where
  "noData =
     calmWorld\<lparr>httpGet := (\<lambda>k. if k = ''ad'' then Response 200 (Json None)
                               else Response 200 (Json (Some \<lparr>InPando = True\<rparr>)))\<rparr>"

definition partlyConfirming :: world where
  "partlyConfirming =
     calmWorld\<lparr>httpGet := (\<lambda>k. Response 200 (Json (Some \<lparr>InPando = (k = ''ad'')\<rparr>)))\<rparr>"

definition announceFails :: world where
  "announceFails = calmWorld\<lparr>updateRootFails := (\<lambda>_. True)\<rparr>"

definition honestPeer :: world where
  "honestPeer = calmWorld\<lparr>traverse := (\<lambda>c sel. ([(c, MetaBlock firstAd)], False))\<rparr>"

definition lyingPeer :: world where
  "lyingPeer = calmWorld\<lparr>traverse := (\<lambda>c sel. ([(Cid ''zz'', MetaBlock firstAd)], False))\<rparr>"

definition storedFirst :: "engine \<Rightarrow> engine" where
  "storedFirst e =
     e\<lparr>lsys := [Cid ''ad'' \<mapsto> MetaBlock firstAd], latestMeta := Cid ''ad'',
       pushList := [Cid ''ad''],
       ds := \<lparr>dsLatestMeta = Some (Cid ''ad''), dsPushedCidList = Some [Cid ''ad''],
               dsCheckCidList = None\<rparr>\<rparr>"

definition threeAds :: "published list" where
  "threeAds =
     [\<lparr>latestBefore = Undef, newCid = Cid ''ad'', prevLink = Some None\<rparr>,
      \<lparr>latestBefore = Cid ''ad'', newCid = Cid ''adad'', prevLink = Some (Some (Cid ''ad''))\<rparr>,
      \<lparr>latestBefore = Cid ''adad'', newCid = Cid ''adadad'',
        prevLink = Some (Some (Cid ''adad''))\<rparr>]"

section \<open>Properties\<close>

lemmas scen = calmWorld_def emptyStore_def freshEngine_def localOnly_def firstAd_def
  twoPending_def onePending_def brokenWalk_def noData_def partlyConfirming_def announceFails_def
  honestPeer_def lyingPeer_def Undef_def

lemmas pubdefs = PublishBytesData_def NewMetaWithBytesPayload_def Publish_def PublishLocal_def
  updateLatestMeta_def updatePushedList_def persistCheckList_def UpdateRoot_def Defined_def
  cid_String_def

subsection \<open>What the publish primitives change\<close>

lemma updateLatestMeta_frame:
  "updateLatestMeta w e c = (r, e') \<Longrightarrow>
     pushList e' = pushList e \<and> checkList e' = checkList e \<and> lsys e' = lsys e
     \<and> publisher e' = publisher e \<and> dsCheckCidList (ds e') = dsCheckCidList (ds e)
     \<and> dsPushedCidList (ds e') = dsPushedCidList (ds e)"
  by (auto simp: updateLatestMeta_def Let_def split: if_splits)

lemma updateLatestMeta_ok:
  "updateLatestMeta w e c = (None, e') \<Longrightarrow>
     c \<noteq> Undef \<and> latestMeta e' = c \<and> dsLatestMeta (ds e') = Some c"
  by (auto simp: updateLatestMeta_def Let_def split: if_splits)

lemma updatePushedList_frame:
  "updatePushedList w e l = (r, e') \<Longrightarrow>
     (pushList e' = pushList e \<or> pushList e' = l) \<and> checkList e' = checkList e \<and> lsys e' = lsys e
     \<and> publisher e' = publisher e \<and> latestMeta e' = latestMeta e
     \<and> dsCheckCidList (ds e') = dsCheckCidList (ds e)
     \<and> dsLatestMeta (ds e') = dsLatestMeta (ds e)"
  by (auto simp: updatePushedList_def Let_def split: if_splits)

lemma updatePushedList_ok:
  "updatePushedList w e l = (None, e') \<Longrightarrow>
     pushList e' = l \<and> dsPushedCidList (ds e') = Some l"
  by (auto simp: updatePushedList_def Let_def split: if_splits)

lemma persistCheckList_frame:
  "persistCheckList w e = (r, e') \<Longrightarrow>
     pushList e' = pushList e \<and> checkList e' = checkList e \<and> lsys e' = lsys e
     \<and> publisher e' = publisher e \<and> latestMeta e' = latestMeta e
     \<and> dsPushedCidList (ds e') = dsPushedCidList (ds e)
     \<and> dsLatestMeta (ds e') = dsLatestMeta (ds e)"
  by (auto simp: persistCheckList_def split: if_splits)

lemma persistCheckList_written:
  "persistCheckList w e = (r, e') \<Longrightarrow> \<not> putFails w CheckCidListKey \<Longrightarrow>
     (if checkList e' = {} then ds e' = ds e else dsCheckCidList (ds e') = Some (checkList e'))"
  by (auto simp: persistCheckList_def split: if_splits)

lemma persistCheckList_ok:
  "persistCheckList w e = (None, e') \<Longrightarrow> checkList e \<noteq> {} \<Longrightarrow>
     dsCheckCidList (ds e') = Some (checkList e')"
  by (auto simp: persistCheckList_def split: if_splits)

lemma PublishLocal_frame:
  "PublishLocal w e md = (r, e') \<Longrightarrow>
     checkList e' = checkList e \<and> publisher e' = publisher e
     \<and> dsCheckCidList (ds e') = dsCheckCidList (ds e)
     \<and> (pushList e' = pushList e \<or> (\<exists>c. pushList e' = pushList e @ [c]))"
proof -
  assume pl: "PublishLocal w e md = (r, e')"
  show ?thesis
  proof (cases "toNodeFails w md")
    case True
    with pl show ?thesis by (simp add: PublishLocal_def)
  next
    case False
    show ?thesis
    proof (cases "lsysStore w md")
      case None
      with pl False show ?thesis by (simp add: PublishLocal_def)
    next
      case (Some c)
      let ?e1 = "e\<lparr>lsys := (lsys e)(c \<mapsto> MetaBlock md)\<rparr>"
      obtain r2 e2 where a: "updateLatestMeta w ?e1 c = (r2, e2)"
        by (cases "updateLatestMeta w ?e1 c")
      note fa = updateLatestMeta_frame [OF a]
      show ?thesis
      proof (cases r2)
        case (Some err)
        with pl False \<open>lsysStore w md = Some c\<close> a fa show ?thesis
          by (simp add: PublishLocal_def)
      next
        case None
        obtain r3 e3 where b: "updatePushedList w e2 (pushList e2 @ [c]) = (r3, e3)"
          by (cases "updatePushedList w e2 (pushList e2 @ [c])")
        note fb = updatePushedList_frame [OF b]
        from pl False \<open>lsysStore w md = Some c\<close> a b None have "e' = e3"
          by (cases r3) (simp_all add: PublishLocal_def)
        with fa fb show ?thesis by auto
      qed
    qed
  qed
qed

lemma PublishLocal_OkE:
  "PublishLocal w e md = (Ok c, e') \<Longrightarrow>
     \<exists>e2. lsysStore w md = Some c
        \<and> updateLatestMeta w (e\<lparr>lsys := (lsys e)(c \<mapsto> MetaBlock md)\<rparr>) c = (None, e2)
        \<and> updatePushedList w e2 (pushList e2 @ [c]) = (None, e')"
  by (simp add: PublishLocal_def Let_def split: if_splits option.splits prod.splits)

lemma PublishLocal_ok:
  assumes "PublishLocal w e md = (Ok c, e')"
  shows "c \<noteq> Undef \<and> lsys e' c = Some (MetaBlock md) \<and> latestMeta e' = c
     \<and> pushList e' = pushList e @ [c]
     \<and> dsLatestMeta (ds e') = Some c \<and> dsPushedCidList (ds e') = Some (pushList e @ [c])"
proof -
  from PublishLocal_OkE [OF assms] obtain e2 where
    a: "updateLatestMeta w (e\<lparr>lsys := (lsys e)(c \<mapsto> MetaBlock md)\<rparr>) c = (None, e2)" and
    b: "updatePushedList w e2 (pushList e2 @ [c]) = (None, e')"
    by blast
  note fa = updateLatestMeta_frame [OF a] and oa = updateLatestMeta_ok [OF a]
  note fb = updatePushedList_frame [OF b] and ob = updatePushedList_ok [OF b]
  show ?thesis using fa oa fb ob by simp
qed

lemma PublishLocal_no_panic: "fst (PublishLocal w e md) \<noteq> Panic"
  by (simp add: PublishLocal_def Let_def split: if_splits option.splits prod.splits)

lemma Publish_OkE:
  assumes a: "Publish w e md = (Ok c, e'')"
  shows "\<exists>e1. PublishLocal w e md = (Ok c, e1)
        \<and> (case publisher e1 of
              None \<Rightarrow> e'' = e1
            | Some p \<Rightarrow> persistCheckList w (announced e1 c) = (None, e''))"
proof -
  obtain r1 e1 where pl: "PublishLocal w e md = (r1, e1)"
    by (cases "PublishLocal w e md")
  show ?thesis
  proof (cases r1)
    case (Ok c1)
    show ?thesis
    proof (cases "publisher e1")
      case None
      with a pl Ok show ?thesis by (simp add: Publish_def)
    next
      case (Some p)
      show ?thesis
      proof (cases "updateRootFails w c1")
        case True
        with a pl Ok Some show ?thesis by (simp add: Publish_def UpdateRoot_def)
      next
        case False
        obtain r4 e4 where pc: "persistCheckList w (announced e1 c1) = (r4, e4)"
          by (cases "persistCheckList w (announced e1 c1)")
        have "Publish w e md = (case r4 of None \<Rightarrow> Ok c1 | Some err \<Rightarrow> Err err, e4)"
          using pl Ok Some False pc
          by (cases r4; cases "cid_String c1 \<in> checkList e1")
             (simp_all add: Publish_def UpdateRoot_def Let_def announced_def)
        with a have "r4 = None \<and> c1 = c \<and> e4 = e''"
          by (cases r4) simp_all
        with pl Ok Some pc show ?thesis by simp
      qed
    qed
  next
    case (Err err)
    with a pl show ?thesis by (simp add: Publish_def)
  next
    case Panic
    with a pl show ?thesis by (simp add: Publish_def)
  qed
qed

lemma Publish_ok:
  assumes "Publish w e md = (Ok c, e')"
  shows "c \<noteq> Undef \<and> latestMeta e' = c \<and> lsys e' c = Some (MetaBlock md)"
proof -
  from Publish_OkE [OF assms] obtain e1 where
    pl: "PublishLocal w e md = (Ok c, e1)" and
    rest: "case publisher e1 of
             None \<Rightarrow> e' = e1
           | Some p \<Rightarrow> persistCheckList w (announced e1 c) = (None, e')"
    by blast
  note o1 = PublishLocal_ok [OF pl]
  show ?thesis
  proof (cases "publisher e1")
    case None
    with rest o1 show ?thesis by simp
  next
    case (Some p)
    with rest have pc: "persistCheckList w (announced e1 c) = (None, e')" by simp
    from persistCheckList_frame [OF pc] o1 show ?thesis
      by (simp add: announced_def split: if_splits)
  qed
qed

lemma Publish_frame:
  assumes "Publish w e md = (r, e')"
  shows "(pushList e' = pushList e \<or> (\<exists>c. pushList e' = pushList e @ [c]))
     \<and> checkList e' \<subseteq> checkList e \<union> cid_String ` set (pushList e')"
proof -
  obtain r1 e1 where pl: "PublishLocal w e md = (r1, e1)"
    by (cases "PublishLocal w e md")
  note f1 = PublishLocal_frame [OF pl]
  show ?thesis
  proof (cases r1)
    case (Ok c)
    note o1 = PublishLocal_ok [OF pl [unfolded Ok]]
    show ?thesis
    proof (cases "publisher e1")
      case None
      with assms pl Ok have "e' = e1" by (simp add: Publish_def)
      with f1 show ?thesis by auto
    next
      case (Some p)
      show ?thesis
      proof (cases "UpdateRoot w p c")
        case (Inl err)
        with assms pl Ok Some have "e' = e1" by (simp add: Publish_def)
        with f1 show ?thesis by auto
      next
        case (Inr p')
        let ?e2 = "e1\<lparr>publisher := Some p'\<rparr>"
        let ?e3 = "if cid_String c \<notin> checkList ?e2
                   then ?e2\<lparr>checkList := insert (cid_String c) (checkList ?e2)\<rparr> else ?e2"
        obtain r4 e4 where pc: "persistCheckList w ?e3 = (r4, e4)"
          by (cases "persistCheckList w ?e3")
        note f4 = persistCheckList_frame [OF pc]
        from assms pl Ok Some Inr pc have "e' = e4"
          by (cases r4) (simp_all add: Publish_def Let_def)
        with f4 f1 o1 show ?thesis by (auto split: if_splits)
      qed
    qed
  next
    case (Err err)
    with assms pl have "e' = e1" by (simp add: Publish_def)
    with f1 show ?thesis by auto
  next
    case Panic
    with assms pl have "e' = e1" by (simp add: Publish_def)
    with f1 show ?thesis by auto
  qed
qed

lemma PublishBytesData_frame:
  assumes "PublishBytesData w e b = (r, e')"
  shows "(pushList e' = pushList e \<or> (\<exists>c. pushList e' = pushList e @ [c]))
     \<and> checkList e' \<subseteq> checkList e \<union> cid_String ` set (pushList e')"
proof (cases "NewMetaWithBytesPayload w b (hostID e)
                (if Defined (latestMeta e) then Some (latestMeta e) else None)")
  case (Inl err)
  with assms have "e' = e" by (simp add: PublishBytesData_def)
  then show ?thesis by auto
next
  case (Inr meta)
  obtain r1 e1 where p: "Publish w e meta = (r1, e1)"
    by (cases "Publish w e meta")
  from assms Inr p have "e' = e1"
    by (cases r1) (simp_all add: PublishBytesData_def)
  with Publish_frame [OF p] show ?thesis by simp
qed

lemma PublishBytesData_ok:
  assumes "PublishBytesData w e b = (Ok c, e')"
  shows "Defined c \<and> latestMeta e' = c
     \<and> prevLinkOf e' c = Some (if Defined (latestMeta e) then Some (latestMeta e) else None)"
proof -
  let ?prev = "if Defined (latestMeta e) then Some (latestMeta e) else None"
  show ?thesis
  proof (cases "NewMetaWithBytesPayload w b (hostID e) ?prev")
    case (Inl err)
    with assms show ?thesis by (simp add: PublishBytesData_def)
  next
    case (Inr meta)
    then have pm: "PreviousID meta = ?prev"
      by (auto simp: NewMetaWithBytesPayload_def split: option.splits)
    obtain r1 e1 where p: "Publish w e meta = (r1, e1)"
      by (cases "Publish w e meta")
    from assms Inr p have "r1 = Ok c \<and> e1 = e'"
      by (cases r1) (simp_all add: PublishBytesData_def)
    with p have "Publish w e meta = (Ok c, e')" by simp
    from Publish_ok [OF this] pm show ?thesis
      by (simp add: Defined_def prevLinkOf_def)
  qed
qed

lemma PublishLatest_frame:
  "PublishLatest w e = (r, e') \<Longrightarrow>
     lsys e' = lsys e \<and> pushList e' = pushList e \<and> checkList e' = checkList e
     \<and> ds e' = ds e \<and> latestMeta e' = latestMeta e"
  by (auto simp: PublishLatest_def split: sum.splits if_splits option.splits)

subsection \<open>What syncing, reading and reconciling change\<close>

lemma Sync_frame:
  "Sync w e c depth endCidStr = (r, e') \<Longrightarrow>
     pushList e' = pushList e \<and> checkList e' = checkList e \<and> ds e' = ds e
     \<and> latestMeta e' = latestMeta e \<and> publisher e' = publisher e \<and> r \<noteq> Panic"
  by (auto simp: Sync_def split: sum.splits if_splits prod.splits)

lemma Sync_depth_one:
  assumes "cid_Decode w (cid_String c) = Inr c" and "\<not> newSyncFails w"
    and "traverse w c (LegSelector (RecursionLimitDepth 1) None) = (visited, failed)"
  shows "Sync w e (cid_String c) 1 [] =
           (Ok (map fst visited), e\<lparr>lsys := storeVisited visited (lsys e)\<rparr>)"
  using assms by (simp add: Sync_def syncSelector_def Defined_def)

lemma catRemote_frame:
  assumes "catRemote w e c = (r, e')"
  shows "pushList e' = pushList e \<and> checkList e' = checkList e \<and> ds e' = ds e
     \<and> latestMeta e' = latestMeta e \<and> publisher e' = publisher e \<and> r \<noteq> Panic"
proof -
  obtain r1 e1 where s: "Sync w e (cid_String c) 1 [] = (r1, e1)"
    by (cases "Sync w e (cid_String c) 1 []")
  note f = Sync_frame [OF s]
  from assms s f have "e' = e1 \<and> r \<noteq> Panic"
    by (cases r1) (auto simp: catRemote_def split: if_splits sum.splits)
  with f show ?thesis by simp
qed

lemma CatCid_frame:
  assumes "CatCid w e c = (r, e')"
  shows "pushList e' = pushList e \<and> checkList e' = checkList e \<and> ds e' = ds e
     \<and> latestMeta e' = latestMeta e \<and> publisher e' = publisher e"
proof -
  obtain r1 e1 where s: "catRemote w e c = (r1, e1)"
    by (cases "catRemote w e c")
  note f = catRemote_frame [OF s]
  from assms s have "e' = e1 \<or> e' = e"
    by (cases r1) (auto simp: CatCid_def split: if_splits sum.splits)
  with f show ?thesis by auto
qed

lemma checkSyncStatus_frame:
  "checkSyncStatus w e ks = (r, e') \<Longrightarrow>
     checkList e' \<subseteq> checkList e \<and> pushList e' = pushList e \<and> ds e' = ds e
     \<and> lsys e' = lsys e \<and> publisher e' = publisher e \<and> latestMeta e' = latestMeta e"
proof (induction ks arbitrary: e)
  case Nil
  then show ?case by simp
next
  case (Cons k ks)
  show ?case
  proof (cases "closing e \<or> shutdownBefore w k")
    case True
    with Cons.prems show ?thesis by auto
  next
    case False
    show ?thesis
    proof (cases "handleResError (httpGet w k)")
      case (Inl err)
      with False Cons.prems have "checkSyncStatus w e ks = (r, e')" by simp
      from Cons.IH [OF this] show ?thesis .
    next
      case (Inr body)
      show ?thesis
      proof (cases body)
        case Malformed
        with Inr False Cons.prems have "checkSyncStatus w e ks = (r, e')" by simp
        from Cons.IH [OF this] show ?thesis .
      next
        case (Json inclusion)
        show ?thesis
        proof (cases inclusion)
          case None
          with Json Inr False Cons.prems show ?thesis by auto
        next
          case (Some incl)
          show ?thesis
          proof (cases "InPando incl")
            case True
            with Some Json Inr False Cons.prems
            have "checkSyncStatus w (e\<lparr>checkList := checkList e - {k}\<rparr>) ks = (r, e')"
              by simp
            from Cons.IH [OF this] show ?thesis by auto
          next
            case nin: False
            with Some Json Inr False Cons.prems have "checkSyncStatus w e ks = (r, e')"
              by simp
            from Cons.IH [OF this] show ?thesis .
          qed
        qed
      qed
    qed
  qed
qed

lemma runCheckTick_frame:
  assumes "runCheckTick w e = (r, e')"
  shows "checkList e' \<subseteq> checkList e \<and> pushList e' = pushList e \<and> lsys e' = lsys e
     \<and> latestMeta e' = latestMeta e"
proof (cases "checkList e = {}")
  case True
  with assms show ?thesis by (simp add: runCheckTick_def)
next
  case False
  obtain r1 e1 where a: "checkSyncStatus w e (rangeKeys w (checkList e)) = (r1, e1)"
    by (cases "checkSyncStatus w e (rangeKeys w (checkList e))")
  note fa = checkSyncStatus_frame [OF a]
  obtain r2 e2 where b: "persistCheckList w e1 = (r2, e2)"
    by (cases "persistCheckList w e1")
  note fb = persistCheckList_frame [OF b]
  from assms False a b have "e' = e1 \<or> e' = e2"
    by (cases r1) (simp_all add: runCheckTick_def)
  with fa fb show ?thesis by auto
qed

subsection \<open>A new engine\<close>

text \<open>
  A new engine has no publisher until it is started, the disabled kind never gets one,
  and an engine made on an empty datastore has no latest pointer, no history and no
  pending id.
\<close>

lemma Start_NoPublisher:
  "pubKind e = NoPublisher \<Longrightarrow> publisher (snd (Start w e)) = None"
  by (simp add: Start_def newPublisher_def Let_def split: sum.splits)

lemma New_publisher: "New w k h d l = Ok e \<Longrightarrow> publisher e = None"
  by (auto simp: New_def initInfo_def Let_def split: sum.splits prod.splits option.splits)

lemma New_empty_pendingPushed:
  "New w k h \<lparr>dsLatestMeta = None, dsPushedCidList = None, dsCheckCidList = None\<rparr> l = Ok e
     \<Longrightarrow> pendingPushed e \<and> latestMeta e = Undef \<and> pushList e = []"
  by (auto simp: New_def initInfo_def getLatestMetaCid_def GetPushedList_def GetCheckList_def
        pendingPushed_def Let_def split: if_splits)

subsection \<open>Sync\<close>

text \<open>
  Claim C1. A \<open>Sync\<close> whose remote traversal fails mid-walk should pass the error on and
  return no list. The code assigns the traversal's error and then returns
  \<open>syncRes, nil\<close>: whenever the ids parse and the syncer is built, a failed walk returns
  the ids visited so far, as a success, and the blocks already received stay in the link
  system.
\<close>

theorem Sync_swallows_traversal_error:
  assumes "cid_Decode w c = Inr syncCid"
    and "\<not> newSyncFails w"
    and "traverse w syncCid (syncSelector depth Undef) = (visited, True)"
  shows "Sync w e c depth [] =
           (Ok (map fst visited), e\<lparr>lsys := storeVisited visited (lsys e)\<rparr>)"
  using assms by (simp add: Sync_def)

text \<open>Claim C1 at a concrete input.\<close>

theorem Sync_swallows_traversal_error_witness:
  "cid_Decode brokenWalk ''abc'' = Inr (Cid ''abc'')
   \<and> \<not> newSyncFails brokenWalk
   \<and> traverse brokenWalk (Cid ''abc'') (syncSelector 3 Undef)
       = ([(Cid ''abc'', MetaBlock firstAd)], True)
   \<and> fst (Sync brokenWalk freshEngine ''abc'' 3 []) = Ok [Cid ''abc'']"
proof -
  have h1: "cid_Decode brokenWalk ''abc'' = Inr (Cid ''abc'')"
    by (simp add: cid_Decode_def scen)
  have h2: "\<not> newSyncFails brokenWalk" by (simp add: scen)
  have h3: "traverse brokenWalk (Cid ''abc'') (syncSelector 3 Undef)
       = ([(Cid ''abc'', MetaBlock firstAd)], True)"
    by (simp add: scen)
  from Sync_swallows_traversal_error [OF h1 h2 h3, of freshEngine] h1 h2 h3
  show ?thesis by simp
qed

subsection \<open>Persisting the pending set\<close>

text \<open>
  Claim C2 says that after every reconciliation batch the persisted snapshot equals the
  pending set in memory, also when the batch empties the set. With one pending id that the
  remote index confirms, the tick empties the set in memory, \<open>persistCheckList\<close> returns
  at its guard for the empty set, and the datastore still holds the old snapshot.
\<close>

theorem emptied_pending_set_not_persisted:
  "fst (runCheckTick calmWorld onePending) = Ok ()
   \<and> checkList (snd (runCheckTick calmWorld onePending)) = {}
   \<and> persistedCheckList (ds (snd (runCheckTick calmWorld onePending))) = {''ad''}
   \<and> persistedCheckList (ds (snd (runCheckTick calmWorld onePending)))
       \<noteq> checkList (snd (runCheckTick calmWorld onePending))"
  by (simp add: runCheckTick_def rangeKeys_def handleResError_def persistCheckList_def
        persistedCheckList_def scen)

text \<open>
  Claim C2, as the code has it. A tick that does not panic and whose datastore write is
  accepted leaves the persisted snapshot equal to the pending set when that set is
  non-empty; when the set is empty after the tick nothing is written and the datastore is
  as it was. A successful publish through a publisher leaves the persisted snapshot equal
  to the pending set, which then holds the new id.
\<close>

theorem pending_set_written_back_unless_empty:
  "(runCheckTick w e = (r, e') \<and> r \<noteq> Panic \<and> \<not> putFails w CheckCidListKey \<longrightarrow>
      (if checkList e' = {} then ds e' = ds e
       else dsCheckCidList (ds e') = Some (checkList e')))
   \<and> (Publish w e md = (Ok c, e'') \<and> publisher e \<noteq> None \<longrightarrow>
      dsCheckCidList (ds e'') = Some (checkList e''))"
proof (intro conjI impI)
  assume a: "runCheckTick w e = (r, e') \<and> r \<noteq> Panic \<and> \<not> putFails w CheckCidListKey"
  show "if checkList e' = {} then ds e' = ds e
        else dsCheckCidList (ds e') = Some (checkList e')"
  proof (cases "checkList e = {}")
    case True
    with a show ?thesis by (simp add: runCheckTick_def)
  next
    case False
    obtain r1 e1 where c1: "checkSyncStatus w e (rangeKeys w (checkList e)) = (r1, e1)"
      by (cases "checkSyncStatus w e (rangeKeys w (checkList e))")
    note f1 = checkSyncStatus_frame [OF c1]
    obtain r2 e2 where c2: "persistCheckList w e1 = (r2, e2)"
      by (cases "persistCheckList w e1")
    from a False c1 c2 have "e' = e2"
      by (cases r1) (auto simp: runCheckTick_def)
    with persistCheckList_written [OF c2] a f1 show ?thesis by simp
  qed
next
  assume a: "Publish w e md = (Ok c, e'') \<and> publisher e \<noteq> None"
  from a Publish_OkE [of w e md c e''] obtain e1 where
    pl: "PublishLocal w e md = (Ok c, e1)" and
    rest: "case publisher e1 of
             None \<Rightarrow> e'' = e1
           | Some p \<Rightarrow> persistCheckList w (announced e1 c) = (None, e'')"
    by blast
  from PublishLocal_frame [OF pl] a obtain p where p: "publisher e1 = Some p" by auto
  with rest have pc: "persistCheckList w (announced e1 c) = (None, e'')" by simp
  have "checkList (announced e1 c) \<noteq> {}" by (auto simp: announced_def)
  with persistCheckList_ok [OF pc] show "dsCheckCidList (ds e'') = Some (checkList e'')" .
qed

text \<open>Claim C2 at a concrete input.\<close>

theorem pending_set_written_back_unless_empty_witness:
  "fst (runCheckTick partlyConfirming twoPending) \<noteq> Panic
   \<and> \<not> putFails partlyConfirming CheckCidListKey
   \<and> checkList (snd (runCheckTick partlyConfirming twoPending)) = {''adad''}
   \<and> dsCheckCidList (ds (snd (runCheckTick partlyConfirming twoPending))) = Some {''adad''}
   \<and> fst (Publish partlyConfirming twoPending firstAd) = Ok (Cid ''ad'')
   \<and> publisher twoPending \<noteq> None
   \<and> dsCheckCidList (ds (snd (Publish partlyConfirming twoPending firstAd)))
       = Some (checkList (snd (Publish partlyConfirming twoPending firstAd)))"
proof -
  have h1: "fst (runCheckTick partlyConfirming twoPending) \<noteq> Panic"
    and h2: "checkList (snd (runCheckTick partlyConfirming twoPending)) = {''adad''}"
    by (simp_all add: runCheckTick_def rangeKeys_def handleResError_def persistCheckList_def scen)
  have h3: "\<not> putFails partlyConfirming CheckCidListKey" "publisher twoPending \<noteq> None"
    by (simp_all add: scen)
  have h4: "fst (Publish partlyConfirming twoPending firstAd) = Ok (Cid ''ad'')"
    by (simp add: pubdefs scen)
  from pending_set_written_back_unless_empty
         [of partlyConfirming twoPending "fst (runCheckTick partlyConfirming twoPending)"
             "snd (runCheckTick partlyConfirming twoPending)" firstAd "Cid ''ad''"
             "snd (Publish partlyConfirming twoPending firstAd)"]
       h1 h2 h3 h4
  show ?thesis by (simp add: prod_eq_iff)
qed

subsection \<open>The reconciliation pass\<close>

text \<open>
  Claim C3. No outcome of a single inclusion query should crash or abort the batch. A
  response with status 200 whose body has no \<open>Data\<close> is logged and then dereferenced: the
  pass panics at that id, the ids after it are not visited, the tick does not persist,
  and the loop ends in the panic.
\<close>

theorem checkSyncStatus_nil_data_panics:
  assumes "checkList e \<noteq> {}"
    and "rangeKeys w (checkList e) = k # ks"
    and "\<not> closing e"
    and "\<not> shutdownBefore w k"
    and "httpGet w k = Response 200 (Json None)"
  shows "checkSyncStatus w e (k # ks) = (Panic, e)
     \<and> runCheckTick w e = (Panic, e)
     \<and> runCheck (Tick w # evs) e = (Some Panic, e)"
proof -
  have a: "checkSyncStatus w e (k # ks) = (Panic, e)"
    using assms(3-5) by (simp add: handleResError_def)
  with assms(1,2) have b: "runCheckTick w e = (Panic, e)"
    by (simp add: runCheckTick_def)
  with a show ?thesis by simp
qed

text \<open>Claim C3 at a concrete input.\<close>

theorem checkSyncStatus_nil_data_panics_witness:
  "checkList twoPending \<noteq> {}
   \<and> rangeKeys noData (checkList twoPending) = [''ad'', ''adad'']
   \<and> \<not> closing twoPending
   \<and> \<not> shutdownBefore noData ''ad''
   \<and> httpGet noData ''ad'' = Response 200 (Json None)
   \<and> runCheckTick noData twoPending = (Panic, twoPending)
   \<and> runCheck [Tick noData, Tick calmWorld] twoPending = (Some Panic, twoPending)"
proof -
  have h1: "checkList twoPending \<noteq> {}" by (simp add: scen)
  have h2: "rangeKeys noData (checkList twoPending) = [''ad'', ''adad'']"
    by (simp add: rangeKeys_def scen)
  have h3: "\<not> closing twoPending" by (simp add: scen)
  have h4: "\<not> shutdownBefore noData ''ad''" by (simp add: scen)
  have h5: "httpGet noData ''ad'' = Response 200 (Json None)" by (simp add: scen)
  from checkSyncStatus_nil_data_panics [OF h1 h2 h3 h4 h5, of "[Tick calmWorld]"] h1 h2 h3 h4 h5
  show ?thesis by simp
qed

subsection \<open>Publish\<close>

text \<open>
  Claim C4. When the advertisement is stored locally and the announce fails, \<open>Publish\<close>
  returns the transport's error and the state is the one \<open>PublishLocal\<close> left: the
  advertisement is in the link system, the latest pointer is the new id in memory and in
  the datastore, and the push history has the new id appended in memory and in the
  datastore.
\<close>

theorem Publish_announce_failure_keeps_local_state:
  assumes "PublishLocal w e md = (Ok c, e1)"
    and "publisher e = Some p"
    and "updateRootFails w c"
  shows "Publish w e md = (Err ErrTransport, e1)
         \<and> lsys e1 c = Some (MetaBlock md)
         \<and> latestMeta e1 = c \<and> dsLatestMeta (ds e1) = Some c
         \<and> pushList e1 = pushList e @ [c]
         \<and> dsPushedCidList (ds e1) = Some (pushList e @ [c])"
proof -
  from assms(1) have pub: "publisher e1 = publisher e"
    by (simp add: PublishLocal_frame)
  have "Publish w e md = (Err ErrTransport, e1)"
    using assms pub by (simp add: Publish_def UpdateRoot_def)
  with PublishLocal_ok [OF assms(1)] show ?thesis by simp
qed

text \<open>Claim C4 at a concrete input.\<close>

theorem Publish_announce_failure_keeps_local_state_witness:
  "PublishLocal announceFails freshEngine firstAd = (Ok (Cid ''ad''), storedFirst freshEngine)
   \<and> publisher freshEngine = Some (Publisher Undef)
   \<and> updateRootFails announceFails (Cid ''ad'')
   \<and> Publish announceFails freshEngine firstAd = (Err ErrTransport, storedFirst freshEngine)
   \<and> lsys (storedFirst freshEngine) (Cid ''ad'') = Some (MetaBlock firstAd)
   \<and> latestMeta (storedFirst freshEngine) = Cid ''ad''
   \<and> pushList (storedFirst freshEngine) = pushList freshEngine @ [Cid ''ad'']"
proof -
  have h1: "PublishLocal announceFails freshEngine firstAd
              = (Ok (Cid ''ad''), storedFirst freshEngine)"
    by (simp add: PublishLocal_def updateLatestMeta_def updatePushedList_def storedFirst_def scen)
  have h2: "publisher freshEngine = Some (Publisher Undef)"
    by (simp add: scen)
  have h3: "updateRootFails announceFails (Cid ''ad'')"
    by (simp add: scen)
  from Publish_announce_failure_keeps_local_state [OF h1 h2 h3] h1 h2 h3
  show ?thesis by simp
qed

text \<open>
  Claim C10. With a nil publisher, \<open>Publish\<close> leaves the pending set and its persisted
  snapshot as they were, and when the local store succeeds it returns the new id in the
  state \<open>PublishLocal\<close> left.
\<close>

theorem Publish_without_publisher:
  assumes "publisher e = None"
  shows "checkList (snd (Publish w e md)) = checkList e
         \<and> dsCheckCidList (ds (snd (Publish w e md))) = dsCheckCidList (ds e)
         \<and> (PublishLocal w e md = (Ok c, e1) \<longrightarrow> Publish w e md = (Ok c, e1))"
proof -
  obtain r e2 where pl: "PublishLocal w e md = (r, e2)"
    by (cases "PublishLocal w e md")
  from PublishLocal_frame [OF pl] assms have fr:
    "checkList e2 = checkList e" "publisher e2 = None"
    "dsCheckCidList (ds e2) = dsCheckCidList (ds e)"
    by simp_all
  show ?thesis
    using pl fr by (cases r) (auto simp: Publish_def)
qed

text \<open>Claim C10 at a concrete input.\<close>

theorem Publish_without_publisher_witness:
  "publisher localOnly = None
   \<and> PublishLocal calmWorld localOnly firstAd = (Ok (Cid ''ad''), storedFirst localOnly)
   \<and> Publish calmWorld localOnly firstAd = (Ok (Cid ''ad''), storedFirst localOnly)
   \<and> checkList (snd (Publish calmWorld localOnly firstAd)) = {}
   \<and> dsCheckCidList (ds (snd (Publish calmWorld localOnly firstAd))) = None"
proof -
  have h1: "publisher localOnly = None" by (simp add: scen)
  have h2: "PublishLocal calmWorld localOnly firstAd = (Ok (Cid ''ad''), storedFirst localOnly)"
    by (simp add: PublishLocal_def updateLatestMeta_def updatePushedList_def storedFirst_def scen)
  have h3: "checkList localOnly = {}" "dsCheckCidList (ds localOnly) = None"
    by (simp_all add: scen)
  from Publish_without_publisher
         [OF h1, of calmWorld firstAd "Cid ''ad''" "storedFirst localOnly"] h2
  have "Publish calmWorld localOnly firstAd = (Ok (Cid ''ad''), storedFirst localOnly)"
    and "checkList (snd (Publish calmWorld localOnly firstAd)) = checkList localOnly"
    and "dsCheckCidList (ds (snd (Publish calmWorld localOnly firstAd)))
          = dsCheckCidList (ds localOnly)"
    by blast+
  with h1 h2 h3 show ?thesis by simp
qed

subsection \<open>Reading an advertisement\<close>

text \<open>
  Claim C5. On a local miss \<open>CatCid\<close> runs a traversal from the requested id with the
  depth-1 selector and stores what it visits. It returns a payload only when the
  traversal visited exactly the requested id; when it visited no node, several nodes or
  another id, the call fails with the wrong-number or the mismatch error. When exactly
  the requested id was visited the result is the decoded payload of the block received.
\<close>

theorem CatCid_remote_fetch:
  assumes miss: "lsys e c = None"
    and dec: "cid_Decode w (cid_String c) = Inr c"
    and ns: "\<not> newSyncFails w"
    and tr: "traverse w c (LegSelector (RecursionLimitDepth 1) None) = (visited, failed)"
  shows "snd (CatCid w e c) = e\<lparr>lsys := storeVisited visited (lsys e)\<rparr>
     \<and> (map fst visited \<noteq> [c] \<longrightarrow>
          fst (CatCid w e c) =
            Err (if length visited \<noteq> 1 then ErrWrongNodesNumber else ErrDismatchedCid))
     \<and> (\<forall>bs. fst (CatCid w e c) = Ok bs \<longrightarrow> map fst visited = [c])
     \<and> (\<forall>b. visited = [(c, b)] \<longrightarrow>
          fst (CatCid w e c) = (if b = CorruptBlock then Err ErrLoad else payloadBytes b))"
proof -
  let ?e1 = "e\<lparr>lsys := storeVisited visited (lsys e)\<rparr>"
  note sy = Sync_depth_one [OF dec ns tr, of e]
  have ld: "lsys_Load e c = Inl ErrNotFound"
    using miss by (simp add: lsys_Load_def)
  show ?thesis
  proof (cases "map fst visited = [c]")
    case False
    then have cr: "catRemote w e c =
        (Err (if length visited \<noteq> 1 then ErrWrongNodesNumber else ErrDismatchedCid), ?e1)"
      using sy by (cases visited) (auto simp: catRemote_def)
    have "CatCid w e c =
        (Err (if length visited \<noteq> 1 then ErrWrongNodesNumber else ErrDismatchedCid), ?e1)"
      using ld cr by (simp add: CatCid_def)
    with False show ?thesis by auto
  next
    case True
    then obtain b where v: "visited = [(c, b)]"
      by (cases visited) auto
    have l1: "lsys_Load ?e1 c = (if b = CorruptBlock then Inl ErrLoad else Inr b)"
      using v by (cases b) (simp_all add: lsys_Load_def)
    have cr: "catRemote w e c = (if b = CorruptBlock then Err ErrLoad else Ok b, ?e1)"
      using sy v l1 by (simp add: catRemote_def)
    have "CatCid w e c = (if b = CorruptBlock then Err ErrLoad else payloadBytes b, ?e1)"
      using ld cr by (simp add: CatCid_def)
    with True v show ?thesis by simp
  qed
qed

text \<open>Claim C5 at a concrete input.\<close>

theorem CatCid_remote_fetch_witness:
  "lsys freshEngine (Cid ''ad'') = None
   \<and> cid_Decode honestPeer (cid_String (Cid ''ad'')) = Inr (Cid ''ad'')
   \<and> \<not> newSyncFails honestPeer
   \<and> traverse honestPeer (Cid ''ad'') (LegSelector (RecursionLimitDepth 1) None)
       = ([(Cid ''ad'', MetaBlock firstAd)], False)
   \<and> fst (CatCid honestPeer freshEngine (Cid ''ad'')) = Ok [1, 2, 3]
   \<and> traverse lyingPeer (Cid ''ad'') (LegSelector (RecursionLimitDepth 1) None)
       = ([(Cid ''zz'', MetaBlock firstAd)], False)
   \<and> fst (CatCid lyingPeer freshEngine (Cid ''ad'')) = Err ErrDismatchedCid"
proof -
  have h1: "lsys freshEngine (Cid ''ad'') = None" by (simp add: scen)
  have h2: "cid_Decode honestPeer (cid_String (Cid ''ad'')) = Inr (Cid ''ad'')"
    "cid_Decode lyingPeer (cid_String (Cid ''ad'')) = Inr (Cid ''ad'')"
    by (simp_all add: cid_Decode_def cid_String_def scen)
  have h3: "\<not> newSyncFails honestPeer" "\<not> newSyncFails lyingPeer" by (simp_all add: scen)
  have h4: "traverse honestPeer (Cid ''ad'') (LegSelector (RecursionLimitDepth 1) None)
       = ([(Cid ''ad'', MetaBlock firstAd)], False)"
    by (simp add: scen)
  have h5: "traverse lyingPeer (Cid ''ad'') (LegSelector (RecursionLimitDepth 1) None)
       = ([(Cid ''zz'', MetaBlock firstAd)], False)"
    by (simp add: scen)
  have h6: "payloadBytes (MetaBlock firstAd) = Ok [1, 2, 3]"
    by (simp add: payloadBytes_def UnwrapMetadata_def firstAd_def)
  from CatCid_remote_fetch [OF h1 h2(1) h3(1) h4] CatCid_remote_fetch [OF h1 h2(2) h3(2) h5]
       h1 h2 h3 h4 h5 h6
  show ?thesis by simp
qed

subsection \<open>Re-announcing the latest advertisement\<close>



text \<open>
  Claim C9. With a nil publisher (the disabled variant, or an engine that was not
  started) and a defined latest pointer in the datastore, \<open>PublishLatest\<close> panics.
\<close>

theorem PublishLatest_nil_publisher_panics:
  assumes "publisher e = None"
    and "getLatestMetaCid w e = Inr c"
    and "c \<noteq> Undef"
  shows "PublishLatest w e = (Panic, e)"
  using assms by (simp add: PublishLatest_def)

text \<open>Claim C9 at a concrete input.\<close>

theorem PublishLatest_nil_publisher_panics_witness:
  "New calmWorld NoPublisher ''host'' emptyStore Map.empty = Ok localOnly
   \<and> Start calmWorld localOnly = (Ok (), localOnly)
   \<and> publisher (snd (PublishBytesData calmWorld localOnly [1])) = None
   \<and> getLatestMetaCid calmWorld (snd (PublishBytesData calmWorld localOnly [1])) = Inr (Cid ''ad'')
   \<and> Cid ''ad'' \<noteq> Undef
   \<and> fst (PublishLatest calmWorld (snd (PublishBytesData calmWorld localOnly [1]))) = Panic"
proof -
  let ?e = "snd (PublishBytesData calmWorld localOnly [1])"
  have h0: "New calmWorld NoPublisher ''host'' emptyStore Map.empty = Ok localOnly"
    by (simp add: New_def initInfo_def getLatestMetaCid_def GetPushedList_def GetCheckList_def scen)
  have h0': "Start calmWorld localOnly = (Ok (), localOnly)"
    by (simp add: Start_def newPublisher_def getLatestMetaCid_def scen)
  have h1: "publisher ?e = None"
    by (simp add: pubdefs scen)
  have h2: "getLatestMetaCid calmWorld ?e = Inr (Cid ''ad'')"
    by (simp add: getLatestMetaCid_def pubdefs scen)
  have h3: "Cid ''ad'' \<noteq> Undef" by (simp add: Undef_def)
  from PublishLatest_nil_publisher_panics [OF h1 h2 h3] h0 h0' h1 h2 h3
  show ?thesis by simp
qed

subsection \<open>Pending ids and the push history\<close>

lemma step_pendingPushed:
  assumes "pendingPushed e" and "step w a e = (p, e')"
  shows "pendingPushed e' \<and> prefix (pushList e) (pushList e')"
proof (cases a)
  case (DoPublish md)
  with assms(2) obtain r where "Publish w e md = (r, e')"
    by (cases "Publish w e md") simp
  from Publish_frame [OF this] assms(1) show ?thesis
    by (auto simp: pendingPushed_def)
next
  case (DoPublishBytesData b)
  with assms(2) obtain r where "PublishBytesData w e b = (r, e')"
    by (cases "PublishBytesData w e b") simp
  from PublishBytesData_frame [OF this] assms(1) show ?thesis
    by (auto simp: pendingPushed_def)
next
  case DoPublishLatest
  with assms(2) obtain r where "PublishLatest w e = (r, e')"
    by (cases "PublishLatest w e") simp
  from PublishLatest_frame [OF this] assms(1) show ?thesis
    by (auto simp: pendingPushed_def)
next
  case (DoSync c depth endCidStr)
  with assms(2) obtain r where "Sync w e c depth endCidStr = (r, e')"
    by (cases "Sync w e c depth endCidStr") simp
  from Sync_frame [OF this] assms(1) show ?thesis
    by (auto simp: pendingPushed_def)
next
  case (DoCatCid c)
  with assms(2) obtain r where "CatCid w e c = (r, e')"
    by (cases "CatCid w e c") simp
  from CatCid_frame [OF this] assms(1) show ?thesis
    by (auto simp: pendingPushed_def)
next
  case DoTick
  with assms(2) obtain r where "runCheckTick w e = (r, e')"
    by (cases "runCheckTick w e") simp
  from runCheckTick_frame [OF this] assms(1) show ?thesis
    by (auto simp: pendingPushed_def)
qed

text \<open>
  Claim C7. From a state in which every pending id is in the push history, every run of
  operations (publishes, re-announces, syncs, reads and reconciliation ticks, under any
  collaborators) ends in such a state, and the push history at the start is a prefix of
  the push history at the end.
\<close>

theorem pending_subset_of_history:
  assumes "pendingPushed e"
  shows "pendingPushed (run ops e) \<and> prefix (pushList e) (pushList (run ops e))"
  using assms
proof (induction ops arbitrary: e)
  case Nil
  then show ?case by simp
next
  case (Cons wa ops)
  obtain w a where wa: "wa = (w, a)" by (cases wa)
  obtain p e1 where st: "step w a e = (p, e1)" by (cases "step w a e")
  note s1 = step_pendingPushed [OF Cons.prems st]
  show ?case
  proof (cases p)
    case True
    with wa st s1 show ?thesis by simp
  next
    case False
    from Cons.IH [of e1] s1 have "pendingPushed (run ops e1) \<and> prefix (pushList e1) (pushList (run ops e1))"
      by simp
    with s1 have "pendingPushed (run ops e1) \<and> prefix (pushList e) (pushList (run ops e1))"
      by (auto intro: prefix_order.trans)
    with wa st False show ?thesis by simp
  qed
qed

text \<open>Claim C7 at a concrete input.\<close>

theorem pending_subset_of_history_witness:
  "pendingPushed freshEngine
   \<and> pendingPushed (run [(calmWorld, DoPublishBytesData [1]), (calmWorld, DoPublishBytesData [2]),
                          (partlyConfirming, DoTick)] freshEngine)
   \<and> prefix (pushList freshEngine)
        (pushList (run [(calmWorld, DoPublishBytesData [1]), (calmWorld, DoPublishBytesData [2]),
                        (partlyConfirming, DoTick)] freshEngine))"
proof -
  have h: "pendingPushed freshEngine" by (simp add: pendingPushed_def scen)
  from pending_subset_of_history
         [OF h, of "[(calmWorld, DoPublishBytesData [1]), (calmWorld, DoPublishBytesData [2]),
                     (partlyConfirming, DoTick)]"] h
  show ?thesis by blast
qed

subsection \<open>The chain of advertisements\<close>

lemma publishSeq_chainFrom:
  "publishSeq ws e = Some ps \<Longrightarrow> chainFrom (latestMeta e) ps \<and> length ps = length ws"
proof (induction ws arbitrary: e ps)
  case Nil
  then show ?case by simp
next
  case (Cons wb ws)
  obtain w b where wb: "wb = (w, b)" by (cases wb)
  obtain r e1 where p: "PublishBytesData w e b = (r, e1)"
    by (cases "PublishBytesData w e b")
  from Cons.prems wb p obtain c where r: "r = Ok c"
    by (cases r) simp_all
  from Cons.prems wb p r obtain ps' where
    rest: "publishSeq ws e1 = Some ps'" and
    ps: "ps = \<lparr>latestBefore = latestMeta e, newCid = c, prevLink = prevLinkOf e1 c\<rparr> # ps'"
    by (cases "publishSeq ws e1") simp_all
  note o = PublishBytesData_ok [OF p [unfolded r]]
  from Cons.IH [OF rest] o ps show ?case by simp
qed

lemma chainFrom_nth:
  "chainFrom l ps \<Longrightarrow> i < length ps \<Longrightarrow>
     latestBefore (ps ! i) = (if i = 0 then l else newCid (ps ! (i - 1)))
     \<and> prevLink (ps ! i) =
         Some (if i = 0 then (if Defined l then Some l else None)
               else Some (newCid (ps ! (i - 1))))"
proof (induction ps arbitrary: l i)
  case Nil
  then show ?case by simp
next
  case (Cons p ps)
  show ?case
  proof (cases i)
    case 0
    with Cons.prems show ?thesis by simp
  next
    case (Suc j)
    with Cons.prems have "chainFrom (newCid p) ps" and "j < length ps" and "Defined (newCid p)"
      by simp_all
    from Cons.IH [OF this(1,2)] Suc this(3) show ?thesis
      by (cases j) simp_all
  qed
qed

text \<open>
  Claim C8. In a sequence of successful publishes, each publish finds as latest pointer
  the id the publish before it returned, and stores an advertisement whose previous-link
  is that id; the first one finds the latest pointer of the starting state and, when that
  is undefined, stores an advertisement with no previous-link.
\<close>

theorem chain_integrity:
  assumes "publishSeq ws e = Some ps" and "i < length ps"
  shows "latestBefore (ps ! i) = (if i = 0 then latestMeta e else newCid (ps ! (i - 1)))
     \<and> prevLink (ps ! i) =
         Some (if i = 0 then (if Defined (latestMeta e) then Some (latestMeta e) else None)
               else Some (newCid (ps ! (i - 1))))
     \<and> length ps = length ws"
  using publishSeq_chainFrom [OF assms(1)] chainFrom_nth [of "latestMeta e" ps i] assms(2)
  by simp

text \<open>Claim C8 at a concrete input.\<close>

theorem chain_integrity_witness:
  "publishSeq [(calmWorld, [1]), (calmWorld, [2]), (calmWorld, [3])] freshEngine = Some threeAds
   \<and> 2 < length threeAds
   \<and> latestBefore (threeAds ! 2) = newCid (threeAds ! 1)
   \<and> prevLink (threeAds ! 2) = Some (Some (newCid (threeAds ! 1)))
   \<and> prevLink (threeAds ! 0) = Some None"
proof -
  have h1: "publishSeq [(calmWorld, [1]), (calmWorld, [2]), (calmWorld, [3])] freshEngine
            = Some threeAds"
    by (simp add: pubdefs prevLinkOf_def threeAds_def scen)
  have h2: "2 < length threeAds" by (simp add: threeAds_def)
  have h3: "0 < length threeAds" by (simp add: threeAds_def)
  have h4: "latestMeta freshEngine = Undef" by (simp add: scen)
  from chain_integrity [OF h1 h2] chain_integrity [OF h1 h3] h1 h2 h4
  show ?thesis by (simp add: Defined_def)
qed

end
